theory Spec2Isabelle
  imports Main "HOL-Library.Word" "HOL-Library.AList"
begin

section \<open>JavaScript values and strings\<close>

text \<open>
  A JavaScript string is a sequence of UTF-16 code units, a Buffer a sequence of bytes.
  Every string literal of the source is ASCII and is written \<open>str ''...''\<close>.
\<close>

type_synonym jschar = "16 word"
type_synonym jsstring = "jschar list"
type_synonym bytes = "8 word list"

definition str :: "string \<Rightarrow> jsstring" where
  "str s = map (\<lambda>c. of_nat (of_char c)) s"

text \<open>
  The primitive values that the fields read by the handlers can hold. \<open>JNum n\<close> is the
  number \<open>n\<close> for an integer of magnitude below \<open>2 ^ 53\<close>, the range in which every
  integer is a JavaScript number and is printed in plain decimal, as an HTTP status is.
  Larger integers are outside the model: JavaScript rounds them, and from \<open>1e21\<close> on it
  prints them with an exponent, which \<open>to_string\<close> below does not follow.
  \<open>JUndefined\<close> is also the value of an absent property.
\<close>

datatype jsval = JUndefined | JNull | JBool bool | JNum int | JStr jsstring

text \<open>The truthiness test of \<open>if (v)\<close>, \<open>v ? a : b\<close> and \<open>v && w\<close>.\<close>

fun truthy :: "jsval \<Rightarrow> bool" where
  "truthy JUndefined = False"
| "truthy JNull = False"
| "truthy (JBool b) = b"
| "truthy (JNum n) = (n \<noteq> 0)"
| "truthy (JStr s) = (s \<noteq> [])"

text \<open>Decimal digits of a natural number, most significant first.\<close>

fun digits :: "nat \<Rightarrow> jsstring" where
  "digits n = (if n < 10 then [of_nat (48 + n)]
               else digits (n div 10) @ [of_nat (48 + n mod 10)])"

declare digits.simps [simp del]

definition show_int :: "int \<Rightarrow> jsstring" where
  "show_int i = (if i < 0 then str ''-'' @ digits (nat (- i)) else digits (nat i))"

text \<open>The string conversion that \<open>+\<close> applies to an operand of a string concatenation.\<close>

fun to_string :: "jsval \<Rightarrow> jsstring" where
  "to_string JUndefined = str ''undefined''"
| "to_string JNull = str ''null''"
| "to_string (JBool b) = (if b then str ''true'' else str ''false'')"
| "to_string (JNum n) = show_int n"
| "to_string (JStr s) = s"

section \<open>String and regular-expression primitives used by the source\<close>

text \<open>\<open>String.prototype.includes\<close>: does \<open>sub\<close> occur in \<open>s\<close> as a contiguous run?\<close>

fun starts_with :: "'a list \<Rightarrow> 'a list \<Rightarrow> bool" where
  "starts_with s [] = True"
| "starts_with [] (p # ps) = False"
| "starts_with (c # cs) (p # ps) = (c = p \<and> starts_with cs ps)"

fun js_includes :: "'a list \<Rightarrow> 'a list \<Rightarrow> bool" where
  "js_includes [] sub = (sub = [])"
| "js_includes (c # cs) sub = (starts_with (c # cs) sub \<or> js_includes cs sub)"

text \<open>
  \<open>String.prototype.split\<close> with a one-character separator: the pieces between the
  separators, in order; the empty string gives one empty piece.
\<close>

fun js_split :: "'a \<Rightarrow> 'a list \<Rightarrow> 'a list list" where
  "js_split sep [] = [[]]"
| "js_split sep (c # cs) =
     (if c = sep then [] # js_split sep cs
      else (case js_split sep cs of
              [] \<Rightarrow> [[c]]
            | p # ps \<Rightarrow> (c # p) # ps))"

text \<open>Array indexing \<open>a[0]\<close>: \<open>undefined\<close> on an empty array.\<close>

definition first_entry :: "jsstring list \<Rightarrow> jsval" where
  "first_entry xs = (case xs of [] \<Rightarrow> JUndefined | x # _ \<Rightarrow> JStr x)"

text \<open>The class \<open>\w\<close> of a regular expression without the \<open>u\<close> and \<open>i\<close> flags.\<close>

definition is_word_char :: "jschar \<Rightarrow> bool" where
  "is_word_char c =
     (let n = unat c in
      (97 \<le> n \<and> n \<le> 122) \<or> (65 \<le> n \<and> n \<le> 90) \<or> (48 \<le> n \<and> n \<le> 57) \<or> n = 95)"

text \<open>The class \<open>\s\<close>: the white space and line terminator code units of ECMAScript.\<close>

definition is_whitespace :: "jschar \<Rightarrow> bool" where
  "is_whitespace c =
     (let n = unat c in
      (9 \<le> n \<and> n \<le> 13) \<or> n = 32 \<or> n = 160 \<or> n = 5760 \<or> (8192 \<le> n \<and> n \<le> 8202)
      \<or> n = 8232 \<or> n = 8233 \<or> n = 8239 \<or> n = 8287 \<or> n = 12288 \<or> n = 65279)"

text \<open>\<open>s.replace(/\s+/g, '')\<close>: every white space character is deleted.\<close>

definition remove_all_whitespace :: "jsstring \<Rightarrow> jsstring" where
  "remove_all_whitespace s = filter (\<lambda>c. \<not> is_whitespace c) s"

text \<open>\<open>s.replace(/\s/, '')\<close>: without the \<open>g\<close> flag only the first match is deleted.\<close>

fun remove_first_whitespace :: "jsstring \<Rightarrow> jsstring" where
  "remove_first_whitespace [] = []"
| "remove_first_whitespace (c # cs) =
     (if is_whitespace c then cs else c # remove_first_whitespace cs)"

text \<open>
  \<open>s.replace(/((\bdownload\/\b)|)/g, '')\<close>. The pattern matches at every position:
  either the token \<open>download/\<close> between two word boundaries, or the empty string. A
  global replace scans from the left; after a non-empty match it resumes behind the match,
  after an empty one it steps one code unit forward and keeps that unit. The token has a
  word boundary in front of it when the previous unit is absent or not a word character,
  and one behind its \<open>/\<close> when the next unit exists and is a word character.
  \<open>strip_download_from prev s\<close> scans the rest \<open>s\<close> of the input, \<open>prev\<close> telling
  whether the unit before it is a word character.
\<close>

definition download_token_at :: "bool \<Rightarrow> jsstring \<Rightarrow> bool" where
  "download_token_at prev s =
     (\<not> prev \<and> take 9 s = str ''download/'' \<and>
      (case drop 9 s of [] \<Rightarrow> False | d # _ \<Rightarrow> is_word_char d))"

fun strip_download_from :: "bool \<Rightarrow> jsstring \<Rightarrow> jsstring" where
  "strip_download_from prev [] = []"
| "strip_download_from prev (c # cs) =
     (if download_token_at prev (c # cs) then strip_download_from False (drop 8 cs)
      else c # strip_download_from (is_word_char c) cs)"

definition strip_download :: "jsstring \<Rightarrow> jsstring" where
  "strip_download s = strip_download_from False s"

text \<open>\<open>s.replace(/\)/g, '')\<close> and \<open>s.replace(/^\/+/, '')\<close>.\<close>

definition remove_right_parens :: "jsstring \<Rightarrow> jsstring" where
  "remove_right_parens s = filter (\<lambda>c. c \<noteq> 41) s"

definition strip_leading_slashes :: "jsstring \<Rightarrow> jsstring" where
  "strip_leading_slashes s = dropWhile (\<lambda>c. c = 47) s"

section \<open>decodeURIComponent\<close>

text \<open>
  The built-in follows the Decode operation of ECMAScript with an empty reserved set.
  A unit other than \<open>%\<close> is copied. \<open>%XX\<close> is one byte; a byte below 128 is the unit
  itself, a byte with \<open>n\<close> leading one bits starts a UTF-8 sequence of \<open>n\<close> bytes
  (\<open>2 \<le> n \<le> 4\<close>), each further byte written \<open>%XX\<close> with the bits \<open>10xxxxxx\<close>. The
  sequence must be the well-formed UTF-8 encoding of a code point, which is appended in
  UTF-16. Everything else raises URIError, here \<open>None\<close>.
\<close>

definition hex_value :: "jschar \<Rightarrow> nat option" where
  "hex_value c =
     (let n = unat c in
      if 48 \<le> n \<and> n \<le> 57 then Some (n - 48)
      else if 65 \<le> n \<and> n \<le> 70 then Some (n - 55)
      else if 97 \<le> n \<and> n \<le> 102 then Some (n - 87)
      else None)"

text \<open>The byte written by the two hexadecimal digits at the head of \<open>s\<close>.\<close>

definition hex_byte :: "jsstring \<Rightarrow> nat option" where
  "hex_byte s =
     (case s of
        h # l # _ \<Rightarrow>
          (case (hex_value h, hex_value l) of
             (Some a, Some b) \<Rightarrow> Some (16 * a + b)
           | _ \<Rightarrow> None)
      | _ \<Rightarrow> None)"

definition leading_ones :: "nat \<Rightarrow> nat" where
  "leading_ones b =
     (if b < 128 then 0 else if b < 192 then 1 else if b < 224 then 2
      else if b < 240 then 3 else if b < 248 then 4 else 5)"

text \<open>The \<open>k\<close> continuation bytes \<open>%XX\<close> at the head of \<open>s\<close>.\<close>

fun continuation_bytes :: "nat \<Rightarrow> jsstring \<Rightarrow> nat list option" where
  "continuation_bytes 0 s = Some []"
| "continuation_bytes (Suc k) s =
     (case s of
        p # rest \<Rightarrow>
          (if p \<noteq> 37 then None
           else (case hex_byte rest of
                   None \<Rightarrow> None
                 | Some b \<Rightarrow>
                     (if 128 \<le> b \<and> b < 192
                      then map_option ((#) b) (continuation_bytes k (drop 2 rest))
                      else None)))
      | [] \<Rightarrow> None)"

text \<open>The code point of a UTF-8 sequence of two to four bytes, if it is well formed.\<close>

definition utf8_code_point :: "nat list \<Rightarrow> nat option" where
  "utf8_code_point octets =
     (case octets of
        [a, b] \<Rightarrow>
          (let v = (a mod 32) * 64 + b mod 64 in
           if 128 \<le> v then Some v else None)
      | [a, b, c] \<Rightarrow>
          (let v = (a mod 16) * 4096 + (b mod 64) * 64 + c mod 64 in
           if 2048 \<le> v \<and> \<not> (55296 \<le> v \<and> v \<le> 57343) then Some v else None)
      | [a, b, c, d] \<Rightarrow>
          (let v = (a mod 8) * 262144 + (b mod 64) * 4096 + (c mod 64) * 64 + d mod 64 in
           if 65536 \<le> v \<and> v \<le> 1114111 then Some v else None)
      | _ \<Rightarrow> None)"

definition utf16_units :: "nat \<Rightarrow> jsstring" where
  "utf16_units v =
     (if v < 65536 then [of_nat v]
      else [of_nat (55296 + (v - 65536) div 1024), of_nat (56320 + (v - 65536) mod 1024)])"

fun decodeURIComponent :: "jsstring \<Rightarrow> jsstring option" where
  "decodeURIComponent [] = Some []"
| "decodeURIComponent (c # cs) =
     (if c \<noteq> 37 then map_option ((#) c) (decodeURIComponent cs)
      else (case hex_byte cs of
              None \<Rightarrow> None
            | Some b \<Rightarrow>
                (if leading_ones b = 0
                 then map_option ((#) (of_nat b)) (decodeURIComponent (drop 2 cs))
                 else if leading_ones b = 1 \<or> 4 < leading_ones b then None
                 else (case continuation_bytes (leading_ones b - 1) (drop 2 cs) of
                         None \<Rightarrow> None
                       | Some octets \<Rightarrow>
                           (case utf8_code_point (b # octets) of
                              None \<Rightarrow> None
                            | Some v \<Rightarrow>
                                map_option ((@) (utf16_units v))
                                  (decodeURIComponent
                                     (drop (2 + 3 * (leading_ones b - 1)) cs)))))))"

section \<open>Base64 and JSON text\<close>

text \<open>\<open>buffer.toString('base64')\<close>: the standard alphabet, padded with \<open>=\<close>.\<close>

definition base64_char :: "nat \<Rightarrow> jschar" where
  "base64_char n =
     (if n < 26 then of_nat (65 + n)
      else if n < 52 then of_nat (71 + n)
      else if n < 62 then of_nat (n - 4)
      else if n = 62 then 43 else 47)"

fun base64_encode :: "bytes \<Rightarrow> jsstring" where
  "base64_encode [] = []"
| "base64_encode [a] =
     [base64_char (unat a div 4), base64_char ((unat a mod 4) * 16), 61, 61]"
| "base64_encode [a, b] =
     [base64_char (unat a div 4), base64_char ((unat a mod 4) * 16 + unat b div 16),
      base64_char ((unat b mod 16) * 4), 61]"
| "base64_encode (a # b # c # rest) =
     [base64_char (unat a div 4), base64_char ((unat a mod 4) * 16 + unat b div 16),
      base64_char ((unat b mod 16) * 4 + unat c div 64), base64_char (unat c mod 64)]
     @ base64_encode rest"

text \<open>
  \<open>JSON.stringify\<close> on a string: quotes around the code points, with the two-character
  escapes of the standard, and \<open>\uXXXX\<close> for the other control characters and for a
  surrogate that is not part of a pair.
\<close>

definition hex_digit :: "nat \<Rightarrow> jschar" where
  "hex_digit n = (if n < 10 then of_nat (48 + n) else of_nat (87 + n))"

definition unicode_escape :: "jschar \<Rightarrow> jsstring" where
  "unicode_escape c =
     (let n = unat c in
      [92, 117, hex_digit (n div 4096), hex_digit (n div 256 mod 16),
       hex_digit (n div 16 mod 16), hex_digit (n mod 16)])"

definition is_high_surrogate :: "jschar \<Rightarrow> bool" where
  "is_high_surrogate c = (55296 \<le> unat c \<and> unat c \<le> 56319)"

definition is_low_surrogate :: "jschar \<Rightarrow> bool" where
  "is_low_surrogate c = (56320 \<le> unat c \<and> unat c \<le> 57343)"

definition json_escape_unit :: "jschar \<Rightarrow> jsstring" where
  "json_escape_unit c =
     (if c = 8 then [92, 98] else if c = 9 then [92, 116] else if c = 10 then [92, 110]
      else if c = 12 then [92, 102] else if c = 13 then [92, 114]
      else if c = 34 then [92, 34] else if c = 92 then [92, 92]
      else if unat c < 32 \<or> is_high_surrogate c \<or> is_low_surrogate c then unicode_escape c
      else [c])"

fun json_escape :: "jsstring \<Rightarrow> jsstring" where
  "json_escape [] = []"
| "json_escape [c] = json_escape_unit c"
| "json_escape (c # d # cs) =
     (if is_high_surrogate c \<and> is_low_surrogate d then c # d # json_escape cs
      else json_escape_unit c @ json_escape (d # cs))"

definition json_quote :: "jsstring \<Rightarrow> jsstring" where
  "json_quote s = [34] @ json_escape s @ [34]"

text \<open>
  A property of an object literal in JSON: \<open>"name":value\<close>; a property whose value is
  \<open>undefined\<close> is left out.
\<close>

fun json_property :: "jsstring \<times> jsval \<Rightarrow> jsstring option" where
  "json_property (k, JUndefined) = None"
| "json_property (k, JNull) = Some (json_quote k @ str '':null'')"
| "json_property (k, JBool b) = Some (json_quote k @ (if b then str '':true'' else str '':false''))"
| "json_property (k, JNum n) = Some (json_quote k @ str '':'' @ show_int n)"
| "json_property (k, JStr s) = Some (json_quote k @ str '':'' @ json_quote s)"

fun join_comma :: "jsstring list \<Rightarrow> jsstring" where
  "join_comma [] = []"
| "join_comma [x] = x"
| "join_comma (x # y # ys) = x @ str '','' @ join_comma (y # ys)"

definition json_object :: "(jsstring \<times> jsval) list \<Rightarrow> jsstring" where
  "json_object props = str ''{'' @ join_comma (List.map_filter json_property props) @ str ''}''"

section \<open>Thrown values, configuration and the object store\<close>

text \<open>
  What the code throws: an object literal \<open>{status, code, message}\<close>, or an instance of
  a built-in error class (\<open>new Error(m)\<close>, and the TypeError and URIError of the
  runtime), which has no \<open>status\<close> property and no enumerable property at all.
  These are the values the file handler and the dispatcher throw. A thrown \<open>null\<close> or
  \<open>undefined\<close>, on which the read of \<open>err.status\<close> itself raises, can only come
  from the image flow and is a case of its own there.
\<close>

datatype thrown =
    ErrObj (err_status: jsval) (err_code: jsval) (err_message: jsval)
  | ErrorInst jsstring
  | TypeError
  | URIError

text \<open>The property read \<open>err.status\<close>.\<close>

fun status_of :: "thrown \<Rightarrow> jsval" where
  "status_of (ErrObj s c m) = s"
| "status_of (ErrorInst m) = JUndefined"
| "status_of TypeError = JUndefined"
| "status_of URIError = JUndefined"

text \<open>\<open>JSON.stringify(err)\<close>: the enumerable own properties, in the order of the literal.\<close>

fun JSON_stringify :: "thrown \<Rightarrow> jsstring" where
  "JSON_stringify (ErrObj s c m) =
     json_object [(str ''status'', s), (str ''code'', c), (str ''message'', m)]"
| "JSON_stringify (ErrorInst m) = json_object []"
| "JSON_stringify TypeError = json_object []"
| "JSON_stringify URIError = json_object []"

text \<open>\<open>process.env\<close>: each variable is a string or absent.\<close>

record env =
  SOURCE_BUCKETS :: "jsstring option"
  ENABLE_DEFAULT_FALLBACK_IMAGE :: "jsstring option"
  DEFAULT_FALLBACK_IMAGE_BUCKET :: "jsstring option"
  DEFAULT_FALLBACK_IMAGE_KEY :: "jsstring option"
  CORS_ENABLED :: "jsstring option"
  CORS_ORIGIN :: "jsstring option"

text \<open>
  The object store, an external service: \<open>getObject({Bucket, Key}).promise()\<close> resolves to
  an object with a body and metadata, or rejects with an error carrying \<open>code\<close> and
  \<open>message\<close>. The log lists the fetches made, in order.
\<close>

record s3object =
  s3_Body :: bytes
  s3_ContentType :: jsval
  s3_CacheControl :: jsval
  s3_LastModified :: jsval

record s3error =
  s3_code :: jsval
  s3_message :: jsval

type_synonym s3 = "jsval \<Rightarrow> jsstring \<Rightarrow> s3error + s3object"
type_synonym fetch_log = "(jsval \<times> jsstring) list"

text \<open>
  The inbound event, an object parsed from JSON. \<open>path\<close> is a string or absent.
  \<open>requestContext\<close> is absent (or a falsy value), or an object, given by the names of
  its own properties; a truthy number, string or boolean behaves as an object without the
  names that matter here.
\<close>

record event =
  path :: "jsstring option"
  requestContext :: "jsstring list option"

text \<open>
  The fields of the request object that the dispatcher reads after \<open>setup\<close>. The file
  handler sets \<open>bucket\<close>, \<open>key\<close>, \<open>originalFile\<close>, \<open>ContentType\<close> and
  \<open>CacheControl\<close>, never \<open>Expires\<close>, \<open>LastModified\<close> or \<open>headers\<close>.
\<close>

record request =
  bucket :: jsval
  key :: jsstring
  originalFile :: bytes
  ContentType :: jsval
  CacheControl :: jsval
  Expires :: jsval
  LastModified :: jsval
  headers :: "(jsstring \<times> jsval) list option"

section \<open>FileRequestHandler\<close>

definition NoSourceBuckets :: thrown where
  "NoSourceBuckets =
     ErrObj (JNum 400) (JStr (str ''GetAllowedSourceBuckets::NoSourceBuckets''))
       (JStr (str ''The SOURCE_BUCKETS variable could not be read. Please check that it is not empty and contains at least one source bucket, or multiple buckets separated by commas. Spaces can be provided between commas and bucket names, these will be automatically parsed out when decoding.''))"

definition getAllowedSourceBuckets :: "env \<Rightarrow> thrown + jsstring list" where
  "getAllowedSourceBuckets e =
     (case SOURCE_BUCKETS e of
        None \<Rightarrow> Inl NoSourceBuckets
      | Some sourceBuckets \<Rightarrow> Inr (js_split 44 (remove_all_whitespace sourceBuckets)))"

definition parseFileBucket :: "env \<Rightarrow> event \<Rightarrow> thrown + jsval" where
  "parseFileBucket e ev =
     (case getAllowedSourceBuckets e of
        Inl err \<Rightarrow> Inl err
      | Inr sourceBuckets \<Rightarrow> Inr (first_entry sourceBuckets))"

text \<open>The string handed to \<open>decodeURIComponent\<close> by \<open>parseFileKey\<close>.\<close>

definition s3_file_path :: "jsstring \<Rightarrow> jsstring" where
  "s3_file_path p = strip_leading_slashes (remove_right_parens (strip_download p))"

definition CannotFindFile :: thrown where
  "CannotFindFile =
     ErrObj (JNum 404) (JStr (str ''FileEdits::CannotFindFile''))
       (JStr (str ''The file you specified could not be found. Please check your request syntax as well as the bucket you specified to ensure it exists.''))"

text \<open>
  The whole body of \<open>parseFileKey\<close> is inside the \<open>try\<close>: the TypeError of
  \<open>event.path.replace\<close> on an absent path and the URIError of the decoder both end in
  the same thrown object.
\<close>

definition parseFileKey :: "event \<Rightarrow> thrown + jsstring" where
  "parseFileKey ev =
     (case path ev of
        None \<Rightarrow> Inl CannotFindFile
      | Some p \<Rightarrow>
          (case decodeURIComponent (s3_file_path p) of
             None \<Rightarrow> Inl CannotFindFile
           | Some k \<Rightarrow> Inr k))"

definition allowed_folders :: "jsstring list" where
  "allowed_folders =
     [str ''csv_images'', str ''inventory-csv'', str ''processing-csv'', str ''sample-csv'']"

definition InvalidFolderAccess :: thrown where
  "InvalidFolderAccess =
     ErrObj (JStr (str ''403'')) (JStr (str ''Invalid folder access''))
       (JStr (str ''The path you are trying to access in not allowed''))"

text \<open>
  \<open>checkAccess\<close> returns whether the first segment of the key is an allowed folder. Its
  \<open>catch\<close> is entered only when \<open>key.split\<close> raises, that is when the key is not a
  string.
\<close>

fun checkAccess :: "jsval \<Rightarrow> thrown + bool" where
  "checkAccess (JStr k) = Inr (first_entry (js_split 47 k) \<in> set (map JStr allowed_folders))"
| "checkAccess v = Inl InvalidFolderAccess"

definition getOriginalFile :: "s3 \<Rightarrow> jsval \<Rightarrow> jsstring \<Rightarrow> thrown + (bytes \<times> jsval \<times> jsval)" where
  "getOriginalFile store b k =
     (case store b k of
        Inr fetched \<Rightarrow>
          Inr (s3_Body fetched, s3_ContentType fetched,
               (if truthy (s3_CacheControl fetched) then s3_CacheControl fetched
                else JStr (str ''max-age=31536000,public'')))
      | Inl err \<Rightarrow>
          Inl (ErrObj (if s3_code err = JStr (str ''NoSuchKey'') then JNum 404 else JNum 500)
                 (s3_code err)
                 (JStr (to_string (s3_message err) @ str '' File Key : '' @ k))))"

text \<open>
  \<open>setup\<close> of the file handler, with the fetches it made. A key outside the allowed
  folders ends in \<open>Promise.reject(new Error('Invalid operation'))\<close>; the \<open>catch\<close> of
  \<open>setup\<close> rethrows what it caught.
\<close>

definition file_setup :: "env \<Rightarrow> s3 \<Rightarrow> event \<Rightarrow> (thrown + request) \<times> fetch_log" where
  "file_setup e store ev =
     (case parseFileBucket e ev of
        Inl err \<Rightarrow> (Inl err, [])
      | Inr b \<Rightarrow>
          (case parseFileKey ev of
             Inl err \<Rightarrow> (Inl err, [])
           | Inr k \<Rightarrow>
               (case checkAccess (JStr k) of
                  Inl err \<Rightarrow> (Inl err, [])
                | Inr False \<Rightarrow> (Inl (ErrorInst (str ''Invalid operation'')), [])
                | Inr True \<Rightarrow>
                    (case getOriginalFile store b k of
                       Inl err \<Rightarrow> (Inl err, [(b, k)])
                     | Inr (content, contentType, cacheControl) \<Rightarrow>
                         (Inr \<lparr>bucket = b, key = k, originalFile = content,
                               ContentType = contentType, CacheControl = cacheControl,
                               Expires = JUndefined, LastModified = JUndefined,
                               headers = None\<rparr>,
                          [(b, k)])))))"

definition lambdaPayloadLimit :: nat where
  "lambdaPayloadLimit = 6 * 1024 * 1024"

definition TooLargeImageException :: thrown where
  "TooLargeImageException =
     ErrObj (JStr (str ''413'')) (JStr (str ''TooLargeImageException''))
       (JStr (str ''The converted image is too large to return.''))"

text \<open>
  \<open>process\<close>: \<open>Buffer.from\<close> of a Buffer copies its bytes (the encoding argument is
  ignored), and \<open>toString('base64')\<close> encodes them.
\<close>

definition process :: "request \<Rightarrow> thrown + jsstring" where
  "process req =
     (let returnFile = base64_encode (originalFile req) in
      if length returnFile > lambdaPayloadLimit then Inl TooLargeImageException
      else Inr returnFile)"

section \<open>The dispatcher\<close>

record response =
  statusCode :: jsval
  isBase64Encoded :: bool
  headers :: "(jsstring \<times> jsval) list"
  body :: jsstring

text \<open>
  A headers object is a list of properties in insertion order; \<open>headers[k] = v\<close>
  overwrites the value of an existing property in place and appends a new one.
\<close>

definition set_header :: "string \<Rightarrow> jsval \<Rightarrow> (jsstring \<times> jsval) list \<Rightarrow> (jsstring \<times> jsval) list" where
  "set_header k v hs = AList.update (str k) v hs"

definition env_value :: "jsstring option \<Rightarrow> jsval" where
  "env_value v = (case v of None \<Rightarrow> JUndefined | Some s \<Rightarrow> JStr s)"

definition getResponseHeaders :: "env \<Rightarrow> bool \<Rightarrow> bool \<Rightarrow> (jsstring \<times> jsval) list" where
  "getResponseHeaders e isErr isAlb =
     (let corsEnabled = (CORS_ENABLED e = Some (str ''Yes''));
          h0 = [(str ''Access-Control-Allow-Methods'', JStr (str ''GET'')),
                (str ''Access-Control-Allow-Headers'', JStr (str ''Content-Type, Authorization''))];
          h1 = (if \<not> isAlb then set_header ''Access-Control-Allow-Credentials'' (JBool True) h0
                else h0);
          h2 = (if corsEnabled
                then set_header ''Access-Control-Allow-Origin'' (env_value (CORS_ORIGIN e)) h1
                else h1)
      in if isErr then set_header ''Content-Type'' (JStr (str ''application/json'')) h2 else h2)"

text \<open>
  The image flow (\<open>ImageRequest.setup\<close> followed by \<open>ImageHandler.process\<close>) is an
  external collaborator: a parameter that, for an event, throws or gives the request and
  the processed payload. The file handler throws objects only, the values of \<open>thrown\<close>;
  of the image flow nothing is known, so it may also throw \<open>null\<close> or \<open>undefined\<close>,
  here \<open>Inl None\<close>, where \<open>Inl (Some err)\<close> throws the object \<open>err\<close>.
\<close>

type_synonym image_flow = "event \<Rightarrow> thrown option + (request \<times> jsstring)"

datatype flow = FileFlow | ImageFlow

text \<open>\<open>fqdn.includes("download")\<close> on the path of the event.\<close>

definition classify :: "jsstring \<Rightarrow> flow" where
  "classify fqdn = (if js_includes fqdn (str ''download'') then FileFlow else ImageFlow)"

text \<open>The file flow: \<open>setup\<close>, then \<open>process\<close> of the request it returned.\<close>

definition file_flow :: "env \<Rightarrow> s3 \<Rightarrow> event \<Rightarrow> (thrown + (request \<times> jsstring)) \<times> fetch_log" where
  "file_flow e store ev =
     (case file_setup e store ev of
        (Inl err, log) \<Rightarrow> (Inl err, log)
      | (Inr req, log) \<Rightarrow>
          (case process req of
             Inl err \<Rightarrow> (Inl err, log)
           | Inr processedRequest \<Rightarrow> (Inr (req, processedRequest), log)))"

text \<open>The response of the \<open>try\<close> block once the flow has returned.\<close>

definition success_response :: "env \<Rightarrow> bool \<Rightarrow> bool \<Rightarrow> request \<Rightarrow> jsstring \<Rightarrow> response" where
  "success_response e isFile isAlb req processedRequest =
     (let h0 = getResponseHeaders e False isAlb;
          h1 = set_header ''Content-Type'' (ContentType req) h0;
          h2 = set_header ''Expires'' (Expires req) h1;
          h3 = (if isFile then set_header ''Content-Disposition'' (JStr (str ''attachment'')) h2
                else h2);
          h4 = set_header ''Last-Modified'' (LastModified req) h3;
          h5 = set_header ''Cache-Control'' (CacheControl req) h4;
          h6 = (case request.headers req of
                  None \<Rightarrow> h5
                | Some custom \<Rightarrow> foldl (\<lambda>h (k, v). AList.update k v h) h5 custom)
      in \<lparr>statusCode = JNum 200, isBase64Encoded = True, headers = h6,
          body = processedRequest\<rparr>)"

text \<open>
  The guard of the fallback image, as the source writes it: the flag is \<open>'Yes'\<close>, bucket
  and key are non-empty strings and stay non-empty after \<open>replace(/\s/, '')\<close>. It gives
  the location to fetch.
\<close>

definition fallback_location :: "env \<Rightarrow> (jsstring \<times> jsstring) option" where
  "fallback_location e =
     (if ENABLE_DEFAULT_FALLBACK_IMAGE e = Some (str ''Yes'')
      then (case DEFAULT_FALLBACK_IMAGE_BUCKET e of
              None \<Rightarrow> None
            | Some b \<Rightarrow>
                (if b \<noteq> [] \<and> remove_first_whitespace b \<noteq> []
                 then (case DEFAULT_FALLBACK_IMAGE_KEY e of
                         None \<Rightarrow> None
                       | Some k \<Rightarrow>
                           (if k \<noteq> [] \<and> remove_first_whitespace k \<noteq> [] then Some (b, k)
                            else None))
                 else None))
      else None)"

text \<open>
  The fallback attempt: the response it returns, if any, and the fetches made. A failed
  fetch is caught and logged, and the handler goes on.
\<close>

definition fallback_attempt :: "env \<Rightarrow> s3 \<Rightarrow> bool \<Rightarrow> thrown \<Rightarrow> response option \<times> fetch_log" where
  "fallback_attempt e store isAlb err =
     (case fallback_location e of
        None \<Rightarrow> (None, [])
      | Some (b, objectKey) \<Rightarrow>
          (case store (JStr b) objectKey of
             Inl error \<Rightarrow> (None, [(JStr b, objectKey)])
           | Inr defaultFallbackImage \<Rightarrow>
               (let h0 = getResponseHeaders e False isAlb;
                    h1 = set_header ''Content-Type'' (s3_ContentType defaultFallbackImage) h0;
                    h2 = set_header ''Last-Modified'' (s3_LastModified defaultFallbackImage) h1;
                    h3 = set_header ''Cache-Control'' (JStr (str ''max-age=31536000,public'')) h2
                in (Some \<lparr>statusCode = (if truthy (status_of err) then status_of err
                                           else JNum 500),
                          isBase64Encoded = True, headers = h3,
                          body = base64_encode (s3_Body defaultFallbackImage)\<rparr>,
                    [(JStr b, objectKey)]))))"

definition InternalError_body :: jsstring where
  "InternalError_body =
     json_object [(str ''message'', JStr (str ''Internal error. Please contact the system administrator.'')),
                  (str ''code'', JStr (str ''InternalError'')),
                  (str ''status'', JNum 500)]"

definition error_response :: "env \<Rightarrow> bool \<Rightarrow> thrown \<Rightarrow> response" where
  "error_response e isAlb err =
     (if truthy (status_of err)
      then \<lparr>statusCode = status_of err, isBase64Encoded = False,
            headers = getResponseHeaders e True isAlb, body = JSON_stringify err\<rparr>
      else \<lparr>statusCode = JNum 500, isBase64Encoded = False,
            headers = getResponseHeaders e True isAlb, body = InternalError_body\<rparr>)"

text \<open>The \<open>catch\<close> block of the dispatcher.\<close>

definition handler_catch :: "env \<Rightarrow> s3 \<Rightarrow> bool \<Rightarrow> thrown \<Rightarrow> response \<times> fetch_log" where
  "handler_catch e store isAlb err =
     (case fallback_attempt e store isAlb err of
        (Some r, log) \<Rightarrow> (r, log)
      | (None, log) \<Rightarrow> (error_response e isAlb err, log))"

text \<open>
  What the dispatcher does with the outcome of the flow it chose: the response of the
  \<open>try\<close> block, or the \<open>catch\<close> block on the object the flow threw. \<open>Inr\<close> is
  the response the promise resolves to, \<open>Inl\<close> a failure that leaves the handler.
\<close>

definition conclude ::
  "env \<Rightarrow> s3 \<Rightarrow> bool \<Rightarrow> bool \<Rightarrow> (thrown + (request \<times> jsstring)) \<times> fetch_log
     \<Rightarrow> (thrown + response) \<times> fetch_log" where
  "conclude e store isFile isAlb outcome =
     (case outcome of
        (Inr (req, processedRequest), log) \<Rightarrow>
          (Inr (success_response e isFile isAlb req processedRequest), log)
      | (Inl err, log) \<Rightarrow>
          (case handler_catch e store isAlb err of
             (r, log') \<Rightarrow> (Inr r, log @ log')))"

text \<open>
  \<open>event.requestContext && event.requestContext.hasOwnProperty('elb')\<close>. The method is
  inherited from \<open>Object.prototype\<close>; an own property named \<open>hasOwnProperty\<close>, which
  in an object parsed from JSON is no function, shadows it, and the call raises a
  TypeError.
\<close>

definition isAlb_of :: "event \<Rightarrow> thrown + bool" where
  "isAlb_of ev =
     (case requestContext ev of
        None \<Rightarrow> Inr False
      | Some names \<Rightarrow>
          (if str ''hasOwnProperty'' \<in> set names then Inl TypeError
           else Inr (str ''elb'' \<in> set names)))"

text \<open>The fetch of the fallback attempt, which does not depend on what was thrown.\<close>

definition fallback_fetches :: "env \<Rightarrow> fetch_log" where
  "fallback_fetches e =
     (case fallback_location e of None \<Rightarrow> [] | Some (b, objectKey) \<Rightarrow> [(JStr b, objectKey)])"

text \<open>
  The dispatcher. Three statements stand before the \<open>try\<close>: \<open>let fqdn = event.path\<close>,
  \<open>let isFile = fqdn.includes("download")\<close>, which raises a TypeError on an event
  without a path, and the computation of \<open>isAlb\<close>, which may raise as said above.
  Nothing catches these. Inside the \<open>catch\<close> block, \<open>err.status\<close> is read within
  the inner \<open>try\<close> of the fallback and again after it: when the image flow threw
  \<open>null\<close> or \<open>undefined\<close>, the second read raises a TypeError that leaves the
  handler, after the fallback fetch if one is configured.
\<close>

definition handler :: "env \<Rightarrow> s3 \<Rightarrow> image_flow \<Rightarrow> event \<Rightarrow> (thrown + response) \<times> fetch_log" where
  "handler e store imageFlow ev =
     (case path ev of
        None \<Rightarrow> (Inl TypeError, [])
      | Some fqdn \<Rightarrow>
          (let isFile = (classify fqdn = FileFlow)
           in case isAlb_of ev of
                Inl err \<Rightarrow> (Inl err, [])
              | Inr isAlb \<Rightarrow>
                  (if isFile then conclude e store isFile isAlb (file_flow e store ev)
                   else (case imageFlow ev of
                           Inl None \<Rightarrow> (Inl TypeError, fallback_fetches e)
                         | Inl (Some err) \<Rightarrow> conclude e store isFile isAlb (Inl err, [])
                         | Inr outcome \<Rightarrow> conclude e store isFile isAlb (Inr outcome, [])))))"

section \<open>The deleted tokens by position, and the key as the specification words it\<close>

text \<open>
  The \<open>download/\<close> tokens of a path, by position: the token stands at index \<open>i\<close>
  when the nine units from \<open>i\<close> spell it, the unit before is absent or not a word
  character, and the unit behind exists and is a word character. An index is inside a token
  when one of the nine units of a token is there.
\<close>

definition download_token_at_index :: "jsstring \<Rightarrow> nat \<Rightarrow> bool" where
  "download_token_at_index p i =
     (take 9 (drop i p) = str ''download/'' \<and>
      (i = 0 \<or> \<not> is_word_char (p ! (i - 1))) \<and>
      i + 9 < length p \<and> is_word_char (p ! (i + 9)))"

definition inside_download_token :: "jsstring \<Rightarrow> nat \<Rightarrow> bool" where
  "inside_download_token p j = (\<exists>i. i \<le> j \<and> j < i + 9 \<and> download_token_at_index p i)"

text \<open>
  The resolution of the key in the words of the specification: the first occurrence of
  \<open>download/\<close> is deleted, then the leading slashes, and the rest is percent-decoded.
\<close>

fun remove_first_occurrence :: "'a list \<Rightarrow> 'a list \<Rightarrow> 'a list" where
  "remove_first_occurrence tok [] = []"
| "remove_first_occurrence tok (c # cs) =
     (if starts_with (c # cs) tok then drop (length tok) (c # cs)
      else c # remove_first_occurrence tok cs)"

definition key_as_specified :: "jsstring \<Rightarrow> jsstring option" where
  "key_as_specified p =
     decodeURIComponent (strip_leading_slashes (remove_first_occurrence (str ''download/'') p))"

section \<open>Sample inputs\<close>

definition sample_env :: env where
  "sample_env =
     \<lparr>SOURCE_BUCKETS = Some (str ''files-bucket, backup-bucket''),
      ENABLE_DEFAULT_FALLBACK_IMAGE = None,
      DEFAULT_FALLBACK_IMAGE_BUCKET = None,
      DEFAULT_FALLBACK_IMAGE_KEY = None,
      CORS_ENABLED = None,
      CORS_ORIGIN = None\<rparr>"

definition sample_object :: s3object where
  "sample_object =
     \<lparr>s3_Body = [104, 105], s3_ContentType = JStr (str ''text/csv''),
      s3_CacheControl = JUndefined, s3_LastModified = JUndefined\<rparr>"

definition NoSuchKey :: s3error where
  "NoSuchKey =
     \<lparr>s3_code = JStr (str ''NoSuchKey''),
      s3_message = JStr (str ''The specified key does not exist.'')\<rparr>"

text \<open>A store that holds one object and reports every other key as missing.\<close>

definition sample_store :: s3 where
  "sample_store b k =
     (if b = JStr (str ''files-bucket'') \<and> k = str ''csv_images/foo.csv''
      then Inr sample_object else Inl NoSuchKey)"

definition sample_image_flow :: image_flow where
  "sample_image_flow ev = Inl (Some TypeError)"

definition sample_request :: request where
  "sample_request =
     \<lparr>bucket = JStr (str ''files-bucket''), key = str ''images/cat.png'',
      originalFile = [104, 105], ContentType = JStr (str ''image/png''),
      CacheControl = JStr (str ''max-age=31536000,public''),
      Expires = JUndefined, LastModified = JUndefined, headers = None\<rparr>"

text \<open>An image flow that answers every event.\<close>

definition answering_image_flow :: image_flow where
  "answering_image_flow ev = Inr (sample_request, str ''aGk='')"

text \<open>An image flow that throws \<open>null\<close>.\<close>

definition null_throwing_image_flow :: image_flow where
  "null_throwing_image_flow ev = Inl None"

text \<open>The event \<open>{}\<close>, without a path.\<close>

definition pathless_event :: event where
  "pathless_event = \<lparr>path = None, requestContext = None\<rparr>"

text \<open>An event whose \<open>requestContext\<close> has an own property \<open>hasOwnProperty\<close>.\<close>

definition shadowing_event :: event where
  "shadowing_event =
     \<lparr>path = Some (str ''/image.png''), requestContext = Some [str ''hasOwnProperty'']\<rparr>"

definition event_of_path :: "string \<Rightarrow> event" where
  "event_of_path p = \<lparr>path = Some (str p), requestContext = None\<rparr>"

definition oversized_request :: request where
  "oversized_request =
     \<lparr>bucket = JStr (str ''files-bucket''), key = str ''csv_images/big.csv'',
      originalFile = replicate 4718593 0, ContentType = JStr (str ''text/csv''),
      CacheControl = JStr (str ''max-age=31536000,public''),
      Expires = JUndefined, LastModified = JUndefined, headers = None\<rparr>"

text \<open>A configuration whose fallback bucket is two spaces.\<close>

definition blank_bucket_env :: env where
  "blank_bucket_env =
     \<lparr>SOURCE_BUCKETS = Some (str ''files-bucket''),
      ENABLE_DEFAULT_FALLBACK_IMAGE = Some (str ''Yes''),
      DEFAULT_FALLBACK_IMAGE_BUCKET = Some (str ''  ''),
      DEFAULT_FALLBACK_IMAGE_KEY = Some (str ''fallback.png''),
      CORS_ENABLED = None,
      CORS_ORIGIN = None\<rparr>"

section \<open>Properties of the primitives\<close>

lemma starts_with_iff: "starts_with s p \<longleftrightarrow> (\<exists>ys. s = p @ ys)"
  by (induction s p rule: starts_with.induct) auto

lemma js_includes_iff: "js_includes s sub \<longleftrightarrow> (\<exists>xs ys. s = xs @ sub @ ys)"
proof (induction s)
  case Nil
  then show ?case by auto
next
  case (Cons c cs)
  show ?case
  proof
    assume "js_includes (c # cs) sub"
    then consider "starts_with (c # cs) sub" | "js_includes cs sub" by auto
    then show "\<exists>xs ys. c # cs = xs @ sub @ ys"
    proof cases
      case 1
      then obtain ys where "c # cs = sub @ ys" by (auto simp: starts_with_iff)
      then have "c # cs = [] @ sub @ ys" by simp
      then show ?thesis by blast
    next
      case 2
      then obtain xs ys where "cs = xs @ sub @ ys" using Cons.IH by auto
      then have "c # cs = (c # xs) @ sub @ ys" by simp
      then show ?thesis by blast
    qed
  next
    assume "\<exists>xs ys. c # cs = xs @ sub @ ys"
    then obtain xs ys where eq: "c # cs = xs @ sub @ ys" by auto
    show "js_includes (c # cs) sub"
    proof (cases xs)
      case Nil
      then have "starts_with (c # cs) sub" using eq by (auto simp: starts_with_iff)
      then show ?thesis by simp
    next
      case (Cons x xs')
      then have "cs = xs' @ sub @ ys" using eq by simp
      then have "js_includes cs sub" using Cons.IH by auto
      then show ?thesis by simp
    qed
  qed
qed

lemma js_split_not_Nil: "js_split sep s \<noteq> []"
  by (induction s) (auto split: list.splits)

text \<open>The primitives on known values.\<close>

lemma base64_encode_example: "base64_encode [77, 97, 110, 104, 105] = str ''TWFuaGk=''"
  by (simp add: base64_char_def str_def)

lemma continuation_bytes_unfold:
  "continuation_bytes k s =
     (if k = 0 then Some []
      else (case s of
              p # rest \<Rightarrow>
                (if p \<noteq> 37 then None
                 else (case hex_byte rest of
                         None \<Rightarrow> None
                       | Some b \<Rightarrow>
                           (if 128 \<le> b \<and> b < 192
                            then map_option ((#) b) (continuation_bytes (k - 1) (drop 2 rest))
                            else None)))
            | [] \<Rightarrow> None))"
  by (cases k) (simp_all split: list.splits option.splits)

lemma decodeURIComponent_example:
  "decodeURIComponent (str ''a%20b%E2%82%AC'') = Some (str ''a b'' @ [8364])"
  by (simp add: str_def hex_byte_def hex_value_def leading_ones_def utf8_code_point_def
      utf16_units_def continuation_bytes_unfold)

lemma decodeURIComponent_malformed:
  "decodeURIComponent (str ''%C0%80'') = None" and "decodeURIComponent (str ''%4'') = None"
  by (simp_all add: str_def hex_byte_def hex_value_def leading_ones_def utf8_code_point_def
      continuation_bytes_unfold)

text \<open>
  The token is deleted only between word boundaries: not behind a word character, and not
  in front of a character that is no word character or of the end of the path.
\<close>

lemma strip_download_examples:
  "strip_download (str ''/download/a.csv'') = str ''/a.csv''"
  "strip_download (str ''/xdownload/a.csv'') = str ''/xdownload/a.csv''"
  "strip_download (str ''/download/%61.csv'') = str ''/download/%61.csv''"
  "strip_download (str ''/download/'') = str ''/download/''"
  by (simp_all add: strip_download_def str_def download_token_at_def is_word_char_def)

section \<open>The sample request\<close>

lemma path_event_of_path [simp]: "path (event_of_path p) = Some (str p)"
  by (simp add: event_of_path_def)

lemma isAlb_of_event_of_path [simp]: "isAlb_of (event_of_path p) = Inr False"
  by (simp add: event_of_path_def isAlb_of_def)

lemma sample_key:
  "parseFileKey (event_of_path ''/download/csv_images/foo.csv'') = Inr (str ''csv_images/foo.csv'')"
  by (simp add: parseFileKey_def event_of_path_def s3_file_path_def strip_download_def str_def
      download_token_at_def is_word_char_def remove_right_parens_def strip_leading_slashes_def)

lemma sample_bucket: "parseFileBucket sample_env ev = Inr (JStr (str ''files-bucket''))"
  by (simp add: parseFileBucket_def getAllowedSourceBuckets_def sample_env_def str_def
      remove_all_whitespace_def is_whitespace_def first_entry_def)

lemma sample_access: "checkAccess (JStr (str ''csv_images/foo.csv'')) = Inr True"
  by (simp add: allowed_folders_def str_def first_entry_def)

lemma sample_setup:
  "file_setup sample_env sample_store (event_of_path ''/download/csv_images/foo.csv'') =
     (Inr \<lparr>bucket = JStr (str ''files-bucket''), key = str ''csv_images/foo.csv'',
           originalFile = [104, 105], ContentType = JStr (str ''text/csv''),
           CacheControl = JStr (str ''max-age=31536000,public''),
           Expires = JUndefined, LastModified = JUndefined, headers = None\<rparr>,
      [(JStr (str ''files-bucket''), str ''csv_images/foo.csv'')])"
  by (simp add: file_setup_def sample_key sample_bucket sample_access getOriginalFile_def
      sample_store_def sample_object_def del: checkAccess.simps)

section \<open>Bucket resolution\<close>

lemma parseFileBucket_Some:
  assumes "SOURCE_BUCKETS e = Some s"
  shows "\<exists>b rest. js_split 44 (remove_all_whitespace s) = b # rest \<and>
           parseFileBucket e ev = Inr (JStr b)"
proof -
  obtain b rest where "js_split 44 (remove_all_whitespace s) = b # rest"
    using js_split_not_Nil [of 44 "remove_all_whitespace s"]
    by (cases "js_split 44 (remove_all_whitespace s)") auto
  then show ?thesis using assms
    by (simp add: parseFileBucket_def getAllowedSourceBuckets_def first_entry_def)
qed

lemma file_setup_log:
  "parseFileBucket e ev = Inr b \<Longrightarrow> f \<in> set (snd (file_setup e store ev)) \<Longrightarrow> fst f = b"
  by (auto simp: file_setup_def split: sum.splits bool.splits prod.splits)

lemma file_setup_bucket:
  "parseFileBucket e ev = Inr b \<Longrightarrow> fst (file_setup e store ev) = Inr req \<Longrightarrow> bucket req = b"
  by (auto simp: file_setup_def split: sum.splits bool.splits prod.splits)

text \<open>
  Claim C6. Without \<open>SOURCE_BUCKETS\<close>, \<open>setup\<close> fails with status 400 and code
  \<open>GetAllowedSourceBuckets::NoSourceBuckets\<close>, and its fetch log is empty. With it, the
  list of buckets (white space deleted, split at the commas) has a first entry, and that
  entry is the bucket whatever the event is: \<open>parseFileBucket\<close> returns it, every fetch
  of \<open>setup\<close> goes to it, and a request that \<open>setup\<close> returns carries it.
\<close>

theorem bucket_resolution:
  "(case SOURCE_BUCKETS e of
      None \<Rightarrow>
        file_setup e store ev = (Inl NoSourceBuckets, []) \<and>
        err_status NoSourceBuckets = JNum 400 \<and>
        err_code NoSourceBuckets = JStr (str ''GetAllowedSourceBuckets::NoSourceBuckets'')
    | Some s \<Rightarrow>
        (\<exists>b rest. js_split 44 (remove_all_whitespace s) = b # rest \<and>
           parseFileBucket e ev = Inr (JStr b) \<and>
           (\<forall>f \<in> set (snd (file_setup e store ev)). fst f = JStr b) \<and>
           (\<forall>req. fst (file_setup e store ev) = Inr req \<longrightarrow> bucket req = JStr b)))"
proof (cases "SOURCE_BUCKETS e")
  case None
  then show ?thesis
    by (simp add: file_setup_def parseFileBucket_def getAllowedSourceBuckets_def
        NoSourceBuckets_def)
next
  case (Some s)
  then obtain b rest where b: "js_split 44 (remove_all_whitespace s) = b # rest"
      "parseFileBucket e ev = Inr (JStr b)"
    using parseFileBucket_Some by blast
  then show ?thesis using Some file_setup_log [OF b(2)] file_setup_bucket [OF b(2)]
    by auto
qed

theorem bucket_resolution_witness:
  "parseFileBucket sample_env (event_of_path ''/download/csv_images/foo.csv'')
     = Inr (JStr (str ''files-bucket'')) \<and>
   snd (file_setup sample_env sample_store (event_of_path ''/download/csv_images/foo.csv''))
     = [(JStr (str ''files-bucket''), str ''csv_images/foo.csv'')] \<and>
   (\<exists>req. fst (file_setup sample_env sample_store
                 (event_of_path ''/download/csv_images/foo.csv'')) = Inr req
      \<and> bucket req = JStr (str ''files-bucket''))"
  using bucket_resolution
    [of sample_env sample_store "event_of_path ''/download/csv_images/foo.csv''"]
  by (simp add: sample_setup sample_bucket)

section \<open>Classification\<close>

text \<open>
  Where the statements before the \<open>try\<close> do not raise, the event goes to the file flow
  exactly when its path contains \<open>download\<close> as a contiguous run of characters, and to
  the image flow otherwise.
\<close>

lemma handler_routes:
  assumes "path ev = Some p" and "isAlb_of ev = Inr a"
  shows "handler e store imageFlow ev =
           (if (\<exists>xs ys. p = xs @ str ''download'' @ ys)
            then conclude e store True a (file_flow e store ev)
            else (case imageFlow ev of
                    Inl None \<Rightarrow> (Inl TypeError, fallback_fetches e)
                  | Inl (Some err) \<Rightarrow> conclude e store False a (Inl err, [])
                  | Inr outcome \<Rightarrow> conclude e store False a (Inr outcome, [])))"
  using assms
  by (auto simp: handler_def classify_def js_includes_iff Let_def
      split: sum.splits option.splits)

text \<open>
  Claim C9, on the event without a path. Its path does not contain \<open>download\<close>, and
  the image flow would answer it, which the dispatcher would turn into a response with
  status 200. But \<open>fqdn.includes\<close> raises before the \<open>try\<close>: the handler fails with
  a TypeError and the event reaches neither flow.
\<close>

theorem pathless_event_reaches_no_flow:
  "path pathless_event = None \<and>
   handler sample_env sample_store answering_image_flow pathless_event = (Inl TypeError, []) \<and>
   answering_image_flow pathless_event = Inr (sample_request, str ''aGk='') \<and>
   conclude sample_env sample_store False False (Inr (sample_request, str ''aGk=''), []) =
     (Inr (success_response sample_env False False sample_request (str ''aGk='')), []) \<and>
   statusCode (success_response sample_env False False sample_request (str ''aGk='')) = JNum 200"
  by (simp add: pathless_event_def handler_def answering_image_flow_def conclude_def
      success_response_def Let_def)

section \<open>The fetch\<close>

lemma missing_key:
  "parseFileKey (event_of_path ''/download/csv_images/bar.csv'') = Inr (str ''csv_images/bar.csv'')"
  by (simp add: parseFileKey_def s3_file_path_def strip_download_def str_def
      download_token_at_def is_word_char_def remove_right_parens_def strip_leading_slashes_def)

lemma missing_access: "checkAccess (JStr (str ''csv_images/bar.csv'')) = Inr True"
  by (simp add: allowed_folders_def str_def first_entry_def)

text \<open>
  Claim C7. When \<open>setup\<close> reaches the fetch of (bucket, key), its outcome is decided by
  the store. An error of the store gives a thrown object with status 404 when the error
  code is \<open>NoSuchKey\<close> and 500 for any other code, with the code of the store and a
  message that ends in the key. An object gives a request whose \<open>ContentType\<close> is the one
  of the object and whose \<open>CacheControl\<close> is the one of the object when it has one (a
  value that passes the source's test \<open>if (originalFile.CacheControl)\<close>) and
  \<open>max-age=31536000,public\<close> otherwise. Either way the fetch is the only one logged.
\<close>

theorem fetch_outcome:
  assumes "parseFileBucket e ev = Inr b" and "parseFileKey ev = Inr k"
    and "checkAccess (JStr k) = Inr True"
  shows "(case store b k of
            Inl err \<Rightarrow>
              file_setup e store ev =
                (Inl (ErrObj (if s3_code err = JStr (str ''NoSuchKey'') then JNum 404 else JNum 500)
                        (s3_code err)
                        (JStr (to_string (s3_message err) @ str '' File Key : '' @ k))),
                 [(b, k)])
          | Inr obj \<Rightarrow>
              (\<exists>req. file_setup e store ev = (Inr req, [(b, k)]) \<and>
                 originalFile req = s3_Body obj \<and>
                 ContentType req = s3_ContentType obj \<and>
                 CacheControl req =
                   (if truthy (s3_CacheControl obj) then s3_CacheControl obj
                    else JStr (str ''max-age=31536000,public''))))"
  using assms
  by (simp add: file_setup_def getOriginalFile_def del: checkAccess.simps split: sum.splits)

theorem fetch_outcome_witness:
  "(\<exists>req. file_setup sample_env sample_store (event_of_path ''/download/csv_images/foo.csv'')
        = (Inr req, [(JStr (str ''files-bucket''), str ''csv_images/foo.csv'')]) \<and>
      originalFile req = [104, 105] \<and>
      ContentType req = JStr (str ''text/csv'') \<and>
      CacheControl req = JStr (str ''max-age=31536000,public'')) \<and>
   file_setup sample_env sample_store (event_of_path ''/download/csv_images/bar.csv'')
     = (Inl (ErrObj (JNum 404) (JStr (str ''NoSuchKey''))
               (JStr (str ''The specified key does not exist. File Key : csv_images/bar.csv''))),
        [(JStr (str ''files-bucket''), str ''csv_images/bar.csv'')])"
proof -
  have found: "sample_store (JStr (str ''files-bucket'')) (str ''csv_images/foo.csv'') = Inr sample_object"
    by (simp add: sample_store_def)
  have missing: "sample_store (JStr (str ''files-bucket'')) (str ''csv_images/bar.csv'') = Inl NoSuchKey"
    by (simp add: sample_store_def str_def)
  show ?thesis
    using fetch_outcome [OF sample_bucket sample_key sample_access, of sample_store]
      fetch_outcome [OF sample_bucket missing_key missing_access, of sample_store]
    by (simp add: found missing sample_object_def NoSuchKey_def) (simp add: str_def)
qed

section \<open>The folder check\<close>

lemma disallowed_folder:
  assumes "parseFileBucket e ev = Inr b" and "parseFileKey ev = Inr k"
    and "first_entry (js_split 47 k) \<notin> set (map JStr allowed_folders)"
  shows "file_setup e store ev = (Inl (ErrorInst (str ''Invalid operation'')), [])"
  using assms by (simp add: file_setup_def)

lemma secret_key:
  "parseFileKey (event_of_path ''/download/secret/foo.csv'') = Inr (str ''secret/foo.csv'')"
  by (simp add: parseFileKey_def s3_file_path_def strip_download_def str_def
      download_token_at_def is_word_char_def remove_right_parens_def strip_leading_slashes_def)

lemma secret_access: "checkAccess (JStr (str ''secret/foo.csv'')) = Inr False"
  by (simp add: allowed_folders_def str_def first_entry_def)

lemma secret_setup:
  "file_setup sample_env sample_store (event_of_path ''/download/secret/foo.csv'') =
     (Inl (ErrorInst (str ''Invalid operation'')), [])"
  by (simp add: file_setup_def sample_bucket secret_key secret_access del: checkAccess.simps)

lemma secret_classify: "classify (str ''/download/secret/foo.csv'') = FileFlow"
  by (simp add: classify_def str_def)

lemma sample_no_fallback: "fallback_attempt sample_env store isAlb err = (None, [])"
  by (simp add: fallback_attempt_def fallback_location_def sample_env_def)

text \<open>
  Claim C1, on the path \<open>/download/secret/foo.csv\<close> with \<open>SOURCE_BUCKETS\<close> set. The
  key is \<open>secret/foo.csv\<close>, its folder is not allowed, and no fetch is made; but what
  \<open>setup\<close> throws is \<open>new Error('Invalid operation')\<close>, which has no status and no
  code, so the dispatcher answers 500 with the generic body. The object with status
  \<open>'403'\<close> and code \<open>Invalid folder access\<close> is thrown by \<open>checkAccess\<close> only for a
  key that is not a string.
\<close>

theorem disallowed_folder_gives_plain_error:
  "file_setup sample_env sample_store (event_of_path ''/download/secret/foo.csv'') =
     (Inl (ErrorInst (str ''Invalid operation'')), []) \<and>
   status_of (ErrorInst (str ''Invalid operation'')) = JUndefined \<and>
   handler sample_env sample_store sample_image_flow (event_of_path ''/download/secret/foo.csv'') =
     (Inr \<lparr>statusCode = JNum 500, isBase64Encoded = False,
           headers = getResponseHeaders sample_env True False, body = InternalError_body\<rparr>, [])"
  by (simp add: secret_setup handler_def secret_classify file_flow_def conclude_def
      handler_catch_def sample_no_fallback error_response_def)

section \<open>The payload limit\<close>

lemma length_base64_encode: "length (base64_encode bs) = 4 * ((length bs + 2) div 3)"
proof (induction bs rule: base64_encode.induct)
  case (4 a b c rest)
  have "(length (a # b # c # rest) + 2) div 3 = (length rest + 2) div 3 + 1"
    by simp
  with 4 show ?case by simp
qed simp_all

lemma process_cases:
  "process req =
     (if 6291456 < length (base64_encode (originalFile req)) then Inl TooLargeImageException
      else Inr (base64_encode (originalFile req)))"
  by (simp add: process_def lambdaPayloadLimit_def Let_def)

text \<open>
  Claim C2, on a file of 4718593 bytes, whose encoding has 6291460 characters. \<open>process\<close>
  fails with code \<open>TooLargeImageException\<close>, but the status of the thrown object is
  the string \<open>'413'\<close>, not the number 413.
\<close>

theorem oversized_file_status_is_a_string:
  "process oversized_request =
     Inl (ErrObj (JStr (str ''413'')) (JStr (str ''TooLargeImageException''))
            (JStr (str ''The converted image is too large to return.''))) \<and>
   JStr (str ''413'') \<noteq> JNum 413"
  by (simp add: process_def oversized_request_def length_base64_encode lambdaPayloadLimit_def
      TooLargeImageException_def)

section \<open>The failure path of the dispatcher\<close>

lemma fallback_attempt_fetches:
  "snd (fallback_attempt e store isAlb err) =
     (case fallback_location e of None \<Rightarrow> [] | Some (b, k) \<Rightarrow> [(JStr b, k)])"
  by (simp add: fallback_attempt_def Let_def split: option.splits sum.splits prod.splits)

lemma fallback_attempt_success:
  assumes "fallback_location e = Some (b, k)" and "store (JStr b) k = Inr img"
  shows "\<exists>hs. fst (fallback_attempt e store isAlb err) =
           Some \<lparr>statusCode = (if truthy (status_of err) then status_of err else JNum 500),
                 isBase64Encoded = True, headers = hs, body = base64_encode (s3_Body img)\<rparr> \<and>
           map_of hs (str ''Cache-Control'') = Some (JStr (str ''max-age=31536000,public''))"
  using assms by (simp add: fallback_attempt_def Let_def set_header_def update_conv')

lemma fallback_attempt_failure:
  assumes "fallback_location e = Some (b, k)" and "store (JStr b) k = Inl error"
  shows "handler_catch e store isAlb err = (error_response e isAlb err, [(JStr b, k)])"
  using assms by (simp add: handler_catch_def fallback_attempt_def)

text \<open>
  Claim C3, on a configuration with the flag \<open>Yes\<close>, the key \<open>fallback.png\<close> and a
  bucket of two spaces. Without its white space the bucket is empty, but
  \<open>replace(/\s/, '')\<close> deletes only the first space, the guard holds, and the fallback
  fetch is made (and fails in the sample store).
\<close>

theorem fallback_fetch_for_blank_bucket:
  "remove_all_whitespace (str ''  '') = [] \<and>
   fallback_attempt blank_bucket_env sample_store False CannotFindFile =
     (None, [(JStr (str ''  ''), str ''fallback.png'')])"
  by (simp add: fallback_attempt_def fallback_location_def blank_bucket_env_def str_def
      remove_all_whitespace_def is_whitespace_def sample_store_def)



section \<open>Failures that leave the dispatcher\<close>

text \<open>
  Claim C4, on the event without a path. \<open>fqdn.includes\<close> stands before the
  \<open>try\<close>, and its TypeError leaves the handler: there is no response. Inside the
  \<open>try\<close> the same absent path is caught: \<open>parseFileKey\<close> turns it into the object
  with status 404.
\<close>

theorem absent_path_escapes:
  "handler sample_env sample_store sample_image_flow \<lparr>path = None, requestContext = None\<rparr> =
     (Inl TypeError, []) \<and>
   parseFileKey \<lparr>path = None, requestContext = None\<rparr> = Inl CannotFindFile \<and>
   err_status CannotFindFile = JNum 404"
  by (simp add: handler_def parseFileKey_def CannotFindFile_def)

text \<open>
  The other two failures that leave the handler: the computation of \<open>isAlb\<close> on a
  \<open>requestContext\<close> with an own property \<open>hasOwnProperty\<close>, and the read of
  \<open>err.status\<close> when the image flow threw \<open>null\<close>.
\<close>

lemma shadowed_hasOwnProperty_escapes:
  "handler sample_env sample_store sample_image_flow shadowing_event = (Inl TypeError, [])"
  by (simp add: handler_def shadowing_event_def isAlb_of_def str_def)

lemma thrown_null_escapes:
  "handler sample_env sample_store null_throwing_image_flow (event_of_path ''/image.png'') =
     (Inl TypeError, [])"
  by (simp add: handler_def classify_def null_throwing_image_flow_def fallback_fetches_def
      fallback_location_def sample_env_def str_def)

text \<open>
  In every other case the dispatcher resolves to one response: when the event has a path,
  the computation of \<open>isAlb\<close> does not raise and the image flow does not throw
  \<open>null\<close> or \<open>undefined\<close>, whatever the configuration and the store are.
\<close>

lemma handler_responds:
  assumes "path ev = Some p" and "isAlb_of ev = Inr a" and "imageFlow ev \<noteq> Inl None"
  shows "\<exists>r log. handler e store imageFlow ev = (Inr r, log)"
  using assms
  by (auto simp: handler_def conclude_def Let_def split: prod.splits sum.splits option.splits)

section \<open>The resolved key\<close>

lemma token_units:
  assumes "take 9 (drop i p) = str ''download/''" and "k < 9"
  shows "p ! (i + k) = str ''download/'' ! k"
proof -
  have "take 9 (drop i p) ! k = drop i p ! k" using assms(2) by simp
  moreover have "length (take 9 (drop i p)) = 9" using assms(1) by (simp add: str_def)
  then have "i + k < length p" using assms(2) by simp
  then have "drop i p ! k = p ! (i + k)" by simp
  ultimately show ?thesis using assms(1) by simp
qed

lemma token_word_units: "k < 8 \<Longrightarrow> is_word_char (str ''download/'' ! k)"
proof -
  assume "k < 8"
  then consider "k = 0" | "k = 1" | "k = 2" | "k = 3" | "k = 4" | "k = 5" | "k = 6" | "k = 7"
    by linarith
  then show ?thesis by cases (simp_all add: str_def is_word_char_def)
qed

lemma tokens_do_not_overlap:
  assumes "download_token_at_index p i" and "i < i'" and "i' < i + 9"
  shows "\<not> download_token_at_index p i'"
proof
  assume t: "download_token_at_index p i'"
  define k where "k = i' - 1 - i"
  have k: "i' - 1 = i + k" "k < 8" using assms(2,3) by (simp_all add: k_def)
  have "p ! (i' - 1) = str ''download/'' ! k"
    using token_units [of i p k] assms(1) k by (simp add: download_token_at_index_def)
  then have "is_word_char (p ! (i' - 1))" using token_word_units k by simp
  moreover have "i' \<noteq> 0" using assms(2) by simp
  ultimately show False using t by (simp add: download_token_at_index_def)
qed


lemma nths_none: "\<forall>j<length xs. j \<notin> A \<Longrightarrow> nths xs A = []"
proof -
  assume "\<forall>j<length xs. j \<notin> A"
  then have "set (nths xs A) = {}" by (auto simp: set_nths)
  then show ?thesis by simp
qed

lemma download_token_at_iff:
  assumes "prev = (pre \<noteq> [] \<and> is_word_char (last pre))"
  shows "download_token_at prev s \<longleftrightarrow> download_token_at_index (pre @ s) (length pre)"
proof -
  have before: "(length pre = 0 \<or> \<not> is_word_char ((pre @ s) ! (length pre - 1))) \<longleftrightarrow> \<not> prev"
  proof (cases "pre = []")
    case True
    then show ?thesis using assms by simp
  next
    case False
    then have "(pre @ s) ! (length pre - 1) = last pre"
      by (simp add: nth_append last_conv_nth)
    then show ?thesis using assms False by simp
  qed
  have behind: "(length pre + 9 < length (pre @ s) \<and> is_word_char ((pre @ s) ! (length pre + 9)))
      \<longleftrightarrow> (case drop 9 s of [] \<Rightarrow> False | d # _ \<Rightarrow> is_word_char d)"
  proof (cases "9 < length s")
    case True
    then have "drop 9 s = s ! 9 # drop (Suc 9) s" by (rule Cons_nth_drop_Suc [symmetric])
    then show ?thesis using True by (simp add: nth_append)
  next
    case False
    then show ?thesis by simp
  qed
  show ?thesis
    unfolding download_token_at_def download_token_at_index_def
    using before behind by auto
qed

lemma strip_download_from_nths:
  assumes "prev = (pre \<noteq> [] \<and> is_word_char (last pre))"
    and "\<forall>i<length pre. download_token_at_index (pre @ s) i \<longrightarrow> i + 9 \<le> length pre"
  shows "strip_download_from prev s =
           nths s {j. \<not> inside_download_token (pre @ s) (length pre + j)}"
  using assms
proof (induction prev s arbitrary: pre rule: strip_download_from.induct)
  case (1 prev)
  then show ?case by simp
next
  case (2 prev c cs)
  let ?p = "pre @ c # cs" and ?n = "length pre"
  show ?case
  proof (cases "download_token_at prev (c # cs)")
    case True
    then have tok: "download_token_at_index ?p ?n"
      using download_token_at_iff [OF "2.prems"(1)] by simp
    have take9: "take 9 (c # cs) = str ''download/''"
      using True by (simp add: download_token_at_def)
    then have len9: "length (take 9 (c # cs)) = 9" by (simp add: str_def)
    have split: "c # cs = take 9 (c # cs) @ drop 8 cs"
      by (metis append_take_drop_id drop_Suc_Cons eval_nat_numeral(3))
    let ?pre' = "pre @ take 9 (c # cs)"
    have p': "?pre' @ drop 8 cs = ?p" using split by simp
    have prev': "False = (?pre' \<noteq> [] \<and> is_word_char (last ?pre'))"
      using take9 by (simp add: str_def is_word_char_def)
    have straddle': "\<forall>i<length ?pre'. download_token_at_index (?pre' @ drop 8 cs) i
        \<longrightarrow> i + 9 \<le> length ?pre'"
    proof (intro allI impI)
      fix i
      assume i: "i < length ?pre'" and t: "download_token_at_index (?pre' @ drop 8 cs) i"
      from t have t': "download_token_at_index ?p i" using p' by simp
      show "i + 9 \<le> length ?pre'"
      proof (cases "i \<le> ?n")
        case True
        then show ?thesis
          using "2.prems"(2) t' len9 by (cases "i = ?n") auto
      next
        case False
        then have "?n < i" "i < ?n + 9" using i len9 by auto
        then show ?thesis using tokens_do_not_overlap [OF tok] t' by blast
      qed
    qed
    have len': "length ?pre' = ?n + 9" using len9 by simp
    have IH0: "strip_download_from False (drop 8 cs) =
        nths (drop 8 cs) {j. \<not> inside_download_token (?pre' @ drop 8 cs) (length ?pre' + j)}"
      using "2.IH"(1) [OF True prev' straddle'] .
    have IH: "strip_download_from False (drop 8 cs) =
        nths (drop 8 cs) {j. \<not> inside_download_token ?p (?n + 9 + j)}"
      using IH0 by (simp only: p' len')
    have covered: "\<forall>j<length (take 9 (c # cs)). j \<notin> {j. \<not> inside_download_token ?p (?n + j)}"
      using tok len9 by (auto simp: inside_download_token_def intro!: exI [of _ ?n])
    have shift: "\<And>j. ?n + (j + 9) = ?n + 9 + j" by simp
    have "nths (c # cs) {j. \<not> inside_download_token ?p (?n + j)} =
        nths (take 9 (c # cs) @ drop 8 cs) {j. \<not> inside_download_token ?p (?n + j)}"
      using split by simp
    also have "\<dots> = nths (take 9 (c # cs)) {j. \<not> inside_download_token ?p (?n + j)} @
        nths (drop 8 cs) {j. j + length (take 9 (c # cs)) \<in> {j. \<not> inside_download_token ?p (?n + j)}}"
      by (rule nths_append)
    also have "\<dots> = nths (drop 8 cs) {j. \<not> inside_download_token ?p (?n + 9 + j)}"
      by (simp only: nths_none [OF covered] len9 mem_Collect_eq shift append_Nil)
    finally show ?thesis using True IH by simp
  next
    case False
    then have notok: "\<not> download_token_at_index ?p ?n"
      using download_token_at_iff [OF "2.prems"(1)] by simp
    have keep: "\<not> inside_download_token ?p ?n"
    proof
      assume "inside_download_token ?p ?n"
      then obtain i where i: "i \<le> ?n" "?n < i + 9" "download_token_at_index ?p i"
        by (auto simp: inside_download_token_def)
      then have "i < ?n" using notok by (cases "i = ?n") auto
      then show False using "2.prems"(2) i by auto
    qed
    let ?pre' = "pre @ [c]"
    have prev': "is_word_char c = (?pre' \<noteq> [] \<and> is_word_char (last ?pre'))" by simp
    have straddle': "\<forall>i<length ?pre'. download_token_at_index (?pre' @ cs) i
        \<longrightarrow> i + 9 \<le> length ?pre'"
    proof (intro allI impI)
      fix i
      assume i: "i < length ?pre'" and t: "download_token_at_index (?pre' @ cs) i"
      then have "i \<noteq> ?n" using notok by auto
      then have "i < ?n" using i by simp
      then show "i + 9 \<le> length ?pre'" using "2.prems"(2) t by auto
    qed
    have IH: "strip_download_from (is_word_char c) cs =
        nths cs {j. \<not> inside_download_token ?p (Suc (?n + j))}"
      using "2.IH"(2) [OF False prev' straddle'] by simp
    show ?thesis using False IH keep by (simp add: nths_Cons)
  qed
qed

lemma strip_download_nths:
  "strip_download p = nths p {j. \<not> inside_download_token p j}"
  using strip_download_from_nths [of False "[]" p] by (simp add: strip_download_def)

lemma doubled_token_key:
  "parseFileKey (event_of_path ''/download/csv_images/download/x.csv'') = Inr (str ''csv_images/x.csv'')"
  by (simp add: parseFileKey_def s3_file_path_def strip_download_def str_def
      download_token_at_def is_word_char_def remove_right_parens_def strip_leading_slashes_def)

lemma bad_escape_key:
  "parseFileKey (event_of_path ''/download/csv_images/%zz.csv'') = Inl CannotFindFile"
  by (simp add: parseFileKey_def s3_file_path_def strip_download_def str_def
      download_token_at_def is_word_char_def remove_right_parens_def strip_leading_slashes_def
      hex_byte_def hex_value_def)

text \<open>
  Claim C5 as stated fails on a path with two \<open>download/\<close> tokens: the pattern has the
  \<open>g\<close> flag and both are deleted, where the claim deletes the first only.
\<close>

theorem second_download_token_is_deleted:
  "parseFileKey (event_of_path ''/download/csv_images/download/x.csv'')
     = Inr (str ''csv_images/x.csv'') \<and>
   key_as_specified (str ''/download/csv_images/download/x.csv'')
     = Some (str ''csv_images/download/x.csv'') \<and>
   str ''csv_images/x.csv'' \<noteq> str ''csv_images/download/x.csv''"
  by (simp add: doubled_token_key)
     (simp add: key_as_specified_def strip_leading_slashes_def str_def)

text \<open>
  Claim C5, amended. For an event with a path, the key is obtained by deleting from the
  path every \<open>download/\<close> token (each occurrence that starts at a word boundary and is
  followed by a word character), then every right parenthesis, then the leading slashes,
  and by percent-decoding the rest. When the decoding raises, \<open>parseFileKey\<close> fails with
  status 404 and code \<open>FileEdits::CannotFindFile\<close>, and so does \<open>setup\<close>, without a
  fetch, when \<open>SOURCE_BUCKETS\<close> is set.
\<close>

theorem resolved_key:
  assumes "path ev = Some p"
  shows "parseFileKey ev =
           (case decodeURIComponent
                   (strip_leading_slashes
                      (remove_right_parens (nths p {j. \<not> inside_download_token p j}))) of
              None \<Rightarrow> Inl CannotFindFile
            | Some k \<Rightarrow> Inr k) \<and>
         err_status CannotFindFile = JNum 404 \<and>
         err_code CannotFindFile = JStr (str ''FileEdits::CannotFindFile'') \<and>
         (SOURCE_BUCKETS e \<noteq> None \<and> parseFileKey ev = Inl CannotFindFile \<longrightarrow>
            file_setup e store ev = (Inl CannotFindFile, []))"
proof -
  have "parseFileKey ev =
      (case decodeURIComponent (s3_file_path p) of None \<Rightarrow> Inl CannotFindFile | Some k \<Rightarrow> Inr k)"
    using assms by (simp add: parseFileKey_def)
  moreover have "s3_file_path p =
      strip_leading_slashes (remove_right_parens (nths p {j. \<not> inside_download_token p j}))"
    by (simp add: s3_file_path_def strip_download_nths)
  moreover have "SOURCE_BUCKETS e \<noteq> None \<and> parseFileKey ev = Inl CannotFindFile \<longrightarrow>
      file_setup e store ev = (Inl CannotFindFile, [])"
    by (auto simp: file_setup_def parseFileBucket_def getAllowedSourceBuckets_def)
  ultimately show ?thesis by (simp add: CannotFindFile_def)
qed

theorem resolved_key_witness:
  "path (event_of_path ''/download/csv_images/%zz.csv'')
     = Some (str ''/download/csv_images/%zz.csv'') \<and>
   SOURCE_BUCKETS sample_env \<noteq> None \<and>
   parseFileKey (event_of_path ''/download/csv_images/%zz.csv'') = Inl CannotFindFile \<and>
   file_setup sample_env sample_store (event_of_path ''/download/csv_images/%zz.csv'')
     = (Inl CannotFindFile, [])"
  using resolved_key [of "event_of_path ''/download/csv_images/%zz.csv''"
      "str ''/download/csv_images/%zz.csv''" sample_env sample_store]
  by (simp add: bad_escape_key) (simp add: sample_env_def)

section \<open>Right parentheses\<close>

lemma js_includes_drop: "js_includes (drop n cs) sub \<Longrightarrow> js_includes cs sub"
proof -
  assume "js_includes (drop n cs) sub"
  then obtain xs ys where "drop n cs = xs @ sub @ ys"
    unfolding js_includes_iff by blast
  then have "cs = (take n cs @ xs) @ sub @ ys"
    by (metis append_take_drop_id append_assoc)
  then show ?thesis unfolding js_includes_iff by blast
qed

lemma unit_eqI: "unat (c :: jschar) = n \<Longrightarrow> n < 65536 \<Longrightarrow> c = of_nat n"
  by auto

lemma unat_unit: "n < 65536 \<Longrightarrow> unat (of_nat n :: jschar) = n"
  by (simp add: unat_of_nat)

lemma hex_value_less: "hex_value h = Some a \<Longrightarrow> a < 16"
  by (auto simp: hex_value_def Let_def split: if_splits)

lemma hex_value_digit: "hex_value h = Some a \<Longrightarrow> a < 10 \<Longrightarrow> unat h = 48 + a"
  by (auto simp: hex_value_def Let_def split: if_splits)

lemma hex_byte_41: 
  assumes "hex_byte cs = Some 41"
  shows "\<exists>rest. cs = 50 # 57 # rest"
proof -
  from assms obtain h l rest a b where cs: "cs = h # l # rest"
    and h: "hex_value h = Some a" and l: "hex_value l = Some b" and ab: "16 * a + b = 41"
    by (auto simp: hex_byte_def split: list.splits option.splits)
  have "a < 16" "b < 16" using h l hex_value_less by auto
  with ab have a: "a = 2" and b: "b = 9" by arith+
  have "unat h = 50" "unat l = 57" using hex_value_digit [OF h] hex_value_digit [OF l] a b by auto
  then have "h = 50" "l = 57" using unit_eqI [of h 50] unit_eqI [of l 57] by auto
  with cs show ?thesis by simp
qed

lemma utf8_code_point_range: "utf8_code_point octets = Some v \<Longrightarrow> 128 \<le> v \<and> v \<le> 1114111"
  by (auto simp: utf8_code_point_def Let_def split: list.splits if_splits)

lemma of_nat_not_paren: "128 \<le> n \<Longrightarrow> n < 65536 \<Longrightarrow> (of_nat n :: jschar) \<noteq> 41"
proof
  assume n: "128 \<le> n" "n < 65536" and eq: "(of_nat n :: jschar) = 41"
  have "unat (of_nat n :: jschar) = n" using n by (simp add: unat_unit)
  with eq have "n = 41" by simp
  with n show False by simp
qed

lemma utf16_units_no_paren:
  assumes "128 \<le> v" and "v \<le> 1114111"
  shows "41 \<notin> set (utf16_units v)"
proof (cases "v < 65536")
  case True
  with assms show ?thesis by (simp add: utf16_units_def of_nat_not_paren)
next
  case False
  have "55296 + (v - 65536) div 1024 < 65536" "56320 + (v - 65536) mod 1024 < 65536"
    using assms by auto
  then show ?thesis using False
    by (simp add: utf16_units_def of_nat_not_paren del: of_nat_add of_nat_numeral)
qed


lemma str_pct29: "str ''%29'' = [37, 50, 57]"
  by (simp add: str_def)

lemma decode_paren_source:
  "decodeURIComponent s = Some k \<Longrightarrow> 41 \<in> set k \<Longrightarrow>
     41 \<in> set s \<or> js_includes s (str ''%29'')"
proof (induction s arbitrary: k rule: decodeURIComponent.induct)
  case 1
  then show ?case by simp
next
  case (2 c cs)
  show ?case
  proof (cases "c \<noteq> 37")
    case True
    with "2.prems" obtain k' where k': "decodeURIComponent cs = Some k'" "k = c # k'"
      by auto
    show ?thesis
    proof (cases "c = 41")
      case True
      then show ?thesis by simp
    next
      case False
      with k' "2.prems" have "41 \<in> set k'" by auto
      with "2.IH"(1) [OF True k'(1)] show ?thesis by auto
    qed
  next
    case False
    then have c: "c = 37" by simp
    with "2.prems" obtain b where b: "hex_byte cs = Some b"
      by (auto split: option.splits)
    show ?thesis
    proof (cases "leading_ones b = 0")
      case True
      with c b "2.prems" obtain k' where k': "decodeURIComponent (drop 2 cs) = Some k'"
          "k = of_nat b # k'"
        by auto
      show ?thesis
      proof (cases "41 \<in> set k'")
        case True
        with "2.IH"(2) [OF False b \<open>leading_ones b = 0\<close> k'(1)]
        have "41 \<in> set (drop 2 cs) \<or> js_includes (drop 2 cs) (str ''%29'')" by simp
        then show ?thesis
          using js_includes_drop [of 2 cs] in_set_dropD [of 41 2 cs] by auto
      next
        case False
        with k' "2.prems" have eq: "(of_nat b :: jschar) = 41" by auto
        have "b < 128" using True by (auto simp: leading_ones_def split: if_splits)
        then have "unat (of_nat b :: jschar) = b" by (simp add: unat_unit)
        with eq have "b = 41" by simp
        with b obtain rest where "cs = 50 # 57 # rest" using hex_byte_41 by blast
        with c show ?thesis by (simp add: str_pct29)
      qed
    next
      case False
      with c b "2.prems" obtain octets v k' where
        n: "\<not> (leading_ones b = 1 \<or> 4 < leading_ones b)" and
        o: "continuation_bytes (leading_ones b - 1) (drop 2 cs) = Some octets" and
        v: "utf8_code_point (b # octets) = Some v" and
        k': "decodeURIComponent (drop (2 + 3 * (leading_ones b - 1)) cs) = Some k'"
          "k = utf16_units v @ k'"
        by (auto split: option.splits if_splits)
      have "41 \<notin> set (utf16_units v)"
        using utf8_code_point_range [OF v] utf16_units_no_paren by simp
      with k' "2.prems" have "41 \<in> set k'" by auto
      with "2.IH"(3) [OF \<open>\<not> c \<noteq> 37\<close> b False n o v k'(1)]
      have "41 \<in> set (drop (2 + 3 * (leading_ones b - 1)) cs) \<or>
            js_includes (drop (2 + 3 * (leading_ones b - 1)) cs) (str ''%29'')" by simp
      then show ?thesis
        using js_includes_drop [of "2 + 3 * (leading_ones b - 1)" cs]
          in_set_dropD [of 41 "2 + 3 * (leading_ones b - 1)" cs] by auto
    qed
  qed
qed

lemma s3_file_path_no_paren: "41 \<notin> set (s3_file_path p)"
proof
  assume "41 \<in> set (s3_file_path p)"
  then have "41 \<in> set (remove_right_parens (strip_download p))"
    unfolding s3_file_path_def strip_leading_slashes_def by (rule set_dropWhileD)
  then show False by (simp add: remove_right_parens_def)
qed

lemma escaped_paren_key:
  "parseFileKey (event_of_path ''/download/csv_images/a%29.csv'') = Inr (str ''csv_images/a).csv'')"
  by (simp add: parseFileKey_def s3_file_path_def strip_download_def str_def
      download_token_at_def is_word_char_def remove_right_parens_def strip_leading_slashes_def
      hex_byte_def hex_value_def leading_ones_def)

lemma escaped_paren_access: "checkAccess (JStr (str ''csv_images/a).csv'')) = Inr True"
  by (simp add: allowed_folders_def str_def first_entry_def)

text \<open>
  Claim C10 as stated fails on a path that writes the parenthesis as \<open>%29\<close>: the
  deletion comes before the decoding, the key has a right parenthesis, and the fetch of
  \<open>setup\<close> addresses it.
\<close>

theorem escaped_paren_reaches_the_store:
  "parseFileKey (event_of_path ''/download/csv_images/a%29.csv'')
     = Inr (str ''csv_images/a).csv'') \<and>
   41 \<in> set (str ''csv_images/a).csv'') \<and>
   snd (file_setup sample_env sample_store (event_of_path ''/download/csv_images/a%29.csv''))
     = [(JStr (str ''files-bucket''), str ''csv_images/a).csv'')]"
  by (simp add: file_setup_def sample_bucket escaped_paren_key escaped_paren_access
        getOriginalFile_def del: checkAccess.simps split: sum.splits)
     (simp add: str_def)

text \<open>
  Claim C10, amended. Every right parenthesis written in the path is deleted before the
  percent-decoding: the string handed to the decoder has none. A right parenthesis in the
  resolved key comes from the escape \<open>%29\<close> in that string, and only so.
\<close>

theorem right_paren_only_from_escape:
  assumes "path ev = Some p"
  shows "41 \<notin> set (s3_file_path p) \<and>
         (\<forall>k. parseFileKey ev = Inr k \<and> 41 \<in> set k \<longrightarrow>
            js_includes (s3_file_path p) (str ''%29''))"
proof (intro conjI allI impI)
  show "41 \<notin> set (s3_file_path p)" by (rule s3_file_path_no_paren)
next
  fix k
  assume k: "parseFileKey ev = Inr k \<and> 41 \<in> set k"
  then have "decodeURIComponent (s3_file_path p) = Some k"
    using assms by (simp add: parseFileKey_def split: option.splits)
  then show "js_includes (s3_file_path p) (str ''%29'')"
    using decode_paren_source [of "s3_file_path p" k] k s3_file_path_no_paren [of p] by simp
qed

theorem right_paren_only_from_escape_witness:
  "path (event_of_path ''/download/csv_images/a%29.csv'')
     = Some (str ''/download/csv_images/a%29.csv'') \<and>
   parseFileKey (event_of_path ''/download/csv_images/a%29.csv'')
     = Inr (str ''csv_images/a).csv'') \<and>
   41 \<in> set (str ''csv_images/a).csv'') \<and>
   41 \<notin> set (s3_file_path (str ''/download/csv_images/a%29.csv'')) \<and>
   js_includes (s3_file_path (str ''/download/csv_images/a%29.csv'')) (str ''%29'')"
proof -
  have "41 \<in> set (str ''csv_images/a).csv'')" by (simp add: str_def)
  then show ?thesis
    using right_paren_only_from_escape [of "event_of_path ''/download/csv_images/a%29.csv''"
        "str ''/download/csv_images/a%29.csv''"]
    by (simp add: escaped_paren_key)
qed

end
